theory Spec2Isabelle
  imports Complex_Main
begin

section \<open>Data model\<close>

text \<open>
  The prize wheel works on JavaScript numbers. They are modelled as \<^typ>\<open>real\<close>; NaN and the
  infinities are outside the model. Selection, rotation angle and animation are stated in
  exact arithmetic. In \<^verbatim>\<open>calculateProbabilities\<close> the rounding of the double operations is
  modelled, because the printed digit depends on it.

  \<^verbatim>\<open>SlotItem\<close> (types file) has the fields \<^verbatim>\<open>id\<close>, \<^verbatim>\<open>type\<close>, \<^verbatim>\<open>text\<close>,
  \<^verbatim>\<open>imageUrl?\<close>, \<^verbatim>\<open>weight\<close>, \<^verbatim>\<open>isDefault\<close>. The first three names are taken in
  Isabelle, so they carry the prefix \<open>slot_\<close>.
\<close>

datatype item_type = Text | ImageText

text \<open>
  The specification's data model gives the entries of a pool pairwise different ids and
  positive weights, and \<^verbatim>\<open>validateWheelConfig\<close> reports a repeated id and a weight that
  is not positive as errors. The type does not enforce either, and nothing on the way to
  a draw checks them, so the theorems below name these conditions where they use them.
\<close>

record SlotItem =
  slot_id :: string
  slot_type :: item_type
  slot_text :: string
  imageUrl :: "string option"
  weight :: real
  isDefault :: bool

text \<open>
  \<^verbatim>\<open>HistoryRecord\<close>: \<^verbatim>\<open>id\<close>, \<^verbatim>\<open>itemId\<close>, \<^verbatim>\<open>timestamp\<close>, \<^verbatim>\<open>result\<close>.
\<close>

record HistoryRecord =
  record_id :: string
  itemId :: string
  timestamp :: string
  result :: string

text \<open>
  The source throws plain \<^verbatim>\<open>Error\<close> objects that differ by their message only. The
  constructors name the specification's error classes; \<open>InvalidConfig\<close> keeps which of the
  two messages of \<^verbatim>\<open>weightedRandomSelect\<close> was raised (empty list, total weight not
  positive). \<open>NoTarget\<close> and \<open>AlreadySpinning\<close> are the two rejections of
  \<^verbatim>\<open>WheelAnimationController.spin\<close>.
\<close>

datatype config_problem = EmptyItems | NonPositiveTotalWeight

datatype error = InvalidConfig config_problem | NoTarget | AlreadySpinning

section \<open>LotteryEngine: weighted selection\<close>

text \<open>
  \<^verbatim>\<open>items.reduce((sum, item) => sum + item.weight, 0)\<close>: a left fold from 0.
\<close>

definition totalWeight :: "SlotItem list \<Rightarrow> real" where
  "totalWeight items = foldl (\<lambda>sum item. sum + weight item) 0 items"

text \<open>
  The \<^verbatim>\<open>for (const item of items)\<close> loop of \<^verbatim>\<open>weightedRandomSelect\<close>:
  \<^verbatim>\<open>random -= item.weight; if (random <= 0) return item\<close>. The value \<open>None\<close> says that the
  loop ran to its end without returning.
\<close>

fun select_walk :: "SlotItem list \<Rightarrow> real \<Rightarrow> SlotItem option" where
  "select_walk [] random = None"
| "select_walk (item # rest) random =
     (let random' = random - weight item
      in if random' \<le> 0 then Some item else select_walk rest random')"

text \<open>
  \<^verbatim>\<open>weightedRandomSelect(items)\<close>. The argument \<open>rnd\<close> is the value returned by
  \<^verbatim>\<open>Math.random()\<close>, which lies in \<open>[0, 1)\<close>. After the loop the source returns
  \<^verbatim>\<open>items[items.length - 1]\<close>; the list is not empty there. The test \<^verbatim>\<open>!items\<close> is for
  \<^verbatim>\<open>null\<close> and \<^verbatim>\<open>undefined\<close>, which the parameter type excludes.
\<close>

definition weightedRandomSelect :: "SlotItem list \<Rightarrow> real \<Rightarrow> error + SlotItem" where
  "weightedRandomSelect items rnd =
     (if length items = 0 then Inl (InvalidConfig EmptyItems)
      else if totalWeight items \<le> 0 then Inl (InvalidConfig NonPositiveTotalWeight)
      else (case select_walk items (rnd * totalWeight items) of
              Some item \<Rightarrow> Inr item
            | None \<Rightarrow> Inr (items ! (length items - 1))))"

text \<open>
  \<^verbatim>\<open>recentResults.slice(0, avoidRecentCount)\<close> for an integer count: a negative end
  counts from the end of the array.
\<close>

definition slice0 :: "'a list \<Rightarrow> int \<Rightarrow> 'a list" where
  "slice0 xs k =
     (if k < 0 then take (nat (int (length xs) + k)) xs else take (nat k) xs)"

text \<open>
  \<^verbatim>\<open>antiRepeatRandomSelect(items, recentResults, avoidRecentCount)\<close>.
\<close>

definition antiRepeatRandomSelect ::
  "SlotItem list \<Rightarrow> string list \<Rightarrow> int \<Rightarrow> real \<Rightarrow> error + SlotItem" where
  "antiRepeatRandomSelect items recentResults avoidRecentCount rnd =
     (if length items = 0 then Inl (InvalidConfig EmptyItems)
      else if int (length items) \<le> avoidRecentCount then weightedRandomSelect items rnd
      else
        (let recentIds = slice0 recentResults avoidRecentCount;
             availableItems = filter (\<lambda>item. slot_id item \<notin> set recentIds) items;
             targetItems = (if length availableItems > 0 then availableItems else items)
         in weightedRandomSelect targetItems rnd))"

text \<open>
  The list that \<^verbatim>\<open>antiRepeatRandomSelect\<close> passes to \<^verbatim>\<open>weightedRandomSelect\<close> when the
  pool is not empty: the pool itself when it has at most \<^verbatim>\<open>avoidRecentCount\<close> entries, and
  \<^verbatim>\<open>targetItems\<close> otherwise.
\<close>

definition targetItems :: "SlotItem list \<Rightarrow> string list \<Rightarrow> int \<Rightarrow> SlotItem list" where
  "targetItems items recentResults avoidRecentCount =
     (if int (length items) \<le> avoidRecentCount then items
      else
        (let recentIds = slice0 recentResults avoidRecentCount;
             availableItems = filter (\<lambda>item. slot_id item \<notin> set recentIds) items
         in if length availableItems > 0 then availableItems else items))"

section \<open>LotteryEngine: rotation angle\<close>

text \<open>
  \<^verbatim>\<open>Array.prototype.findIndex\<close>: the index of the first element that satisfies the
  predicate, \<open>-1\<close> when there is none.
\<close>

fun findIndex :: "('a \<Rightarrow> bool) \<Rightarrow> 'a list \<Rightarrow> int" where
  "findIndex p [] = - 1"
| "findIndex p (x # xs) =
     (if p x then 0
      else (let k = findIndex p xs in if k = - 1 then - 1 else k + 1))"

text \<open>
  \<^verbatim>\<open>calculateRotationAngle(items, selectedItem, baseRotations)\<close>. The result carries what
  the call writes with \<^verbatim>\<open>console.warn\<close> (the message is in Chinese in the source and is
  given in English here) and the returned angle. \<open>rnd\<close> is the value of \<^verbatim>\<open>Math.random()\<close>.
  The function has no \<^verbatim>\<open>throw\<close>: every path returns a number.
\<close>

record angle_result =
  warnings :: "string list"
  angle :: real

definition calculateRotationAngle ::
  "SlotItem list \<Rightarrow> SlotItem \<Rightarrow> real \<Rightarrow> real \<Rightarrow> angle_result" where
  "calculateRotationAngle items selectedItem baseRotations rnd =
     (if length items = 0 then \<lparr>warnings = [], angle = 0\<rparr>
      else
        (let selectedIndex = findIndex (\<lambda>item. slot_id item = slot_id selectedItem) items
         in if selectedIndex = - 1
            then \<lparr>warnings = [''the selected item is not in the wheel list''],
                  angle = baseRotations * 360\<rparr>
            else
              (let anglePerItem = 360 / real (length items);
                   targetAngle = real_of_int selectedIndex * anglePerItem;
                   randomOffset = (rnd - 0.5) * anglePerItem * 0.8;
                   totalAngle = baseRotations * 360 + (360 - targetAngle) + randomOffset
               in \<lparr>warnings = [], angle = totalAngle\<rparr>)))"

section \<open>LotteryEngine: probabilities\<close>







text \<open>
  The digit that \<^verbatim>\<open>calculateProbabilities\<close> prints can depend on the last bit of the
  percentage, so in that function the result of every arithmetic operation is rounded to
  the nearest IEEE 754 double, ties to the even significand, as JavaScript does.
  \<open>binary_exponent\<close> normalises a non-negative number into \<open>[1, 2)\<close> by halving or doubling
  and counts the steps; \<open>exponent_fuel\<close> steps are more than the exponent range of a double
  needs. Below \<open>2 ^ min_exponent\<close> the spacing of the doubles stays that of the subnormal
  numbers. A result that rounds to \<open>2 ^ (max_exponent + 1)\<close> or more is Infinity in the
  source, which \<^typ>\<open>real\<close> does not have; \<open>normal_double\<close> is the range in which a double
  has its full 53 bits. The weights are doubles when they reach the function.
\<close>

fun binary_exponent :: "nat \<Rightarrow> real \<Rightarrow> int \<Rightarrow> int" where
  "binary_exponent 0 x e = e"
| "binary_exponent (Suc k) x e =
     (if 2 \<le> x then binary_exponent k (x / 2) (e + 1)
      else if x < 1 then binary_exponent k (x * 2) (e - 1)
      else e)"

definition exponent_fuel :: nat where
  "exponent_fuel = 1100"

definition min_exponent :: int where
  "min_exponent = - 1022"


definition double_exponent :: "real \<Rightarrow> int" where
  "double_exponent x = max (binary_exponent exponent_fuel \<bar>x\<bar> 0) min_exponent"

definition round_half_even :: "real \<Rightarrow> int" where
  "round_half_even m =
     (let f = \<lfloor>m\<rfloor>
      in if m - of_int f < 1 / 2 then f
         else if 1 / 2 < m - of_int f then f + 1
         else if even f then f else f + 1)"

definition round_double :: "real \<Rightarrow> real" where
  "round_double x =
     (let ulp = 2 powi (double_exponent x - 52)
      in of_int (round_half_even (x / ulp)) * ulp)"





section \<open>HistoryStorage\<close>

text \<open>
  The browser's \<^verbatim>\<open>localStorage\<close> is seen through the one key
  \<^verbatim>\<open>STORAGE_KEYS.HISTORY_RECORDS\<close>: \<open>None\<close> when \<^verbatim>\<open>getItem\<close> gives nothing that
  \<^verbatim>\<open>JSON.parse\<close> accepts, \<open>Some records\<close> otherwise. \<^verbatim>\<open>StorageManager.load\<close> returns the
  default value in the first case (also through its \<^verbatim>\<open>catch\<close>).
\<close>

type_synonym history_storage = "HistoryRecord list option"

definition getRecords :: "history_storage \<Rightarrow> HistoryRecord list" where
  "getRecords st = (case st of None \<Rightarrow> [] | Some records \<Rightarrow> records)"

text \<open>
  \<^verbatim>\<open>StorageManager.save\<close> wraps \<^verbatim>\<open>localStorage.setItem\<close> in \<^verbatim>\<open>try\<close>/\<^verbatim>\<open>catch\<close>: when the
  browser refuses the write (\<open>written = False\<close>), the error is logged and the stored value
  stays as it was.
\<close>

definition saveRecords :: "bool \<Rightarrow> history_storage \<Rightarrow> HistoryRecord list \<Rightarrow> history_storage" where
  "saveRecords written st records = (if written then Some records else st)"

text \<open>
  \<^verbatim>\<open>addRecord(record)\<close>: \<^verbatim>\<open>records.unshift(record)\<close>, then \<^verbatim>\<open>records.splice(100)\<close> when
  there are more than 100, then \<^verbatim>\<open>saveRecords(records)\<close>.
\<close>

definition addRecord :: "bool \<Rightarrow> history_storage \<Rightarrow> HistoryRecord \<Rightarrow> history_storage" where
  "addRecord written st record =
     (let records = getRecords st;
          records1 = record # records;
          records2 = (if length records1 > 100 then take 100 records1 else records1)
      in saveRecords written st records2)"

section \<open>WheelAnimationController\<close>

text \<open>
  The animated element is modelled by the one property the controller writes,
  \<^verbatim>\<open>style.transform\<close>, which it sets to \<^verbatim>\<open>rotate(<angle>deg)\<close>.
\<close>

datatype transform = Unset | Rotate real

record HTMLElement =
  style_transform :: transform

text \<open>
  What the closure \<^verbatim>\<open>animate\<close> of one \<^verbatim>\<open>spin\<close> call has captured.
\<close>

record animation =
  startTime :: real
  duration :: real
  easing :: "real \<Rightarrow> real"
  startRotation :: real
  totalRotation :: real

text \<open>
  The private fields of the controller, and the part of the host it talks to: the
  callbacks scheduled with \<^verbatim>\<open>requestAnimationFrame\<close>, each under its handle, and the next
  handle the host will give out. Handles are positive, as the HTML standard says.
\<close>

record WheelAnimationController =
  element :: "HTMLElement option"
  isSpinning :: bool
  currentRotation :: real
  animationId :: "nat option"
  frames :: "(nat \<times> animation) list"
  nextHandle :: nat

datatype promise = Pending | Fulfilled | Rejected error

definition new_controller :: "HTMLElement option \<Rightarrow> WheelAnimationController" where
  "new_controller el =
     \<lparr>element = el, isSpinning = False, currentRotation = 0, animationId = None,
      frames = [], nextHandle = 1\<rparr>"

definition requestAnimationFrame ::
  "animation \<Rightarrow> WheelAnimationController \<Rightarrow> nat \<times> WheelAnimationController" where
  "requestAnimationFrame a w =
     (nextHandle w,
      w\<lparr>frames := frames w @ [(nextHandle w, a)], nextHandle := Suc (nextHandle w)\<rparr>)"

definition cancelAnimationFrame ::
  "nat \<Rightarrow> WheelAnimationController \<Rightarrow> WheelAnimationController" where
  "cancelAnimationFrame h w = w\<lparr>frames := filter (\<lambda>(h', a). h' \<noteq> h) (frames w)\<rparr>"

definition easeOutCubic :: "real \<Rightarrow> real" where
  "easeOutCubic t = 1 - (1 - t) ^ 3"

text \<open>
  The executor of the promise that \<^verbatim>\<open>spin(targetAngle, duration, easing)\<close> returns; it
  runs before \<^verbatim>\<open>spin\<close> returns. \<open>now\<close> is the value of \<^verbatim>\<open>Date.now()\<close>. The result is
  the state of the promise at that moment and the new state. The source's defaults are
  \<open>duration = 3000\<close> and \<open>easing = easeOutCubic\<close>.
\<close>

definition spin ::
  "WheelAnimationController \<Rightarrow> real \<Rightarrow> real \<Rightarrow> (real \<Rightarrow> real) \<Rightarrow> real
     \<Rightarrow> promise \<times> WheelAnimationController" where
  "spin w targetAngle dur ease now =
     (if element w = None then (Rejected NoTarget, w)
      else if isSpinning w then (Rejected AlreadySpinning, w)
      else
        (let w1 = w\<lparr>isSpinning := True\<rparr>;
             a = \<lparr>startTime = now, duration = dur, easing = ease,
                  startRotation = currentRotation w1, totalRotation = targetAngle\<rparr>;
             (h, w2) = requestAnimationFrame a w1
         in (Pending, w2\<lparr>animationId := Some h\<rparr>)))"

text \<open>
  One run of the closure \<^verbatim>\<open>animate\<close> at time \<open>now\<close>. The boolean says whether
  \<^verbatim>\<open>resolve()\<close> was called.
\<close>

definition animate ::
  "animation \<Rightarrow> WheelAnimationController \<Rightarrow> real \<Rightarrow> bool \<times> WheelAnimationController" where
  "animate a w now =
     (let elapsed = now - startTime a;
          progress = min (elapsed / duration a) 1;
          easedProgress = easing a progress;
          w1 = w\<lparr>currentRotation := startRotation a + totalRotation a * easedProgress\<rparr>;
          w2 = (case element w1 of
                  Some el \<Rightarrow>
                    w1\<lparr>element := Some (el\<lparr>style_transform := Rotate (currentRotation w1)\<rparr>)\<rparr>
                | None \<Rightarrow> w1)
      in if progress < 1
         then (let (h, w3) = requestAnimationFrame a w2
               in (False, w3\<lparr>animationId := Some h\<rparr>))
         else (True, w2\<lparr>isSpinning := False, animationId := None\<rparr>))"

text \<open>
  The host runs the oldest scheduled callback and forgets its handle.
\<close>

definition run_frame :: "WheelAnimationController \<Rightarrow> real \<Rightarrow> bool \<times> WheelAnimationController" where
  "run_frame w now =
     (case frames w of
        [] \<Rightarrow> (False, w)
      | (h, a) # rest \<Rightarrow> animate a (w\<lparr>frames := rest\<rparr>) now)"

text \<open>
  \<^verbatim>\<open>stop()\<close>. The test \<^verbatim>\<open>if (this.animationId)\<close> is false for \<^verbatim>\<open>null\<close> and for \<open>0\<close>.
\<close>

definition stop :: "WheelAnimationController \<Rightarrow> WheelAnimationController" where
  "stop w =
     (let w1 = (case animationId w of
                  None \<Rightarrow> w
                | Some h \<Rightarrow>
                    if h \<noteq> 0 then (cancelAnimationFrame h w)\<lparr>animationId := None\<rparr> else w)
      in w1\<lparr>isSpinning := False\<rparr>)"

text \<open>
  \<^verbatim>\<open>reset()\<close>.
\<close>

definition reset :: "WheelAnimationController \<Rightarrow> WheelAnimationController" where
  "reset w =
     (let w1 = stop w;
          w2 = w1\<lparr>currentRotation := 0\<rparr>
      in case element w2 of
           Some el \<Rightarrow> w2\<lparr>element := Some (el\<lparr>style_transform := Rotate 0\<rparr>)\<rparr>
         | None \<Rightarrow> w2)"

text \<open>
  The states a controller can be in: it is constructed, and then \<^verbatim>\<open>spin\<close>, \<^verbatim>\<open>stop\<close>,
  \<^verbatim>\<open>reset\<close> and the host's animation frames act on it in any order. A duration of zero
  makes \<^verbatim>\<open>elapsed / duration\<close> infinite or NaN in the source, which \<^typ>\<open>real\<close> does not
  have, so such spins are left out.
\<close>

inductive reachable :: "WheelAnimationController \<Rightarrow> bool" where
  reachable_new: "reachable (new_controller el)"
| reachable_spin:
    "reachable w \<Longrightarrow> dur \<noteq> 0 \<Longrightarrow> reachable (snd (spin w targetAngle dur ease now))"
| reachable_frame: "reachable w \<Longrightarrow> reachable (snd (run_frame w now))"
| reachable_stop: "reachable w \<Longrightarrow> reachable (stop w)"
| reachable_reset: "reachable w \<Longrightarrow> reachable (reset w)"

text \<open>
  What holds in every such state: a spinning controller has an element, it is spinning
  exactly when it holds a handle, and the host's queue holds exactly the callback of that
  handle.
\<close>

definition controller_inv :: "WheelAnimationController \<Rightarrow> bool" where
  "controller_inv w \<longleftrightarrow>
     (isSpinning w \<longrightarrow> element w \<noteq> None) \<and>
     (isSpinning w \<longleftrightarrow> animationId w \<noteq> None) \<and>
     0 < nextHandle w \<and>
     (case animationId w of
        None \<Rightarrow> frames w = []
      | Some h \<Rightarrow> 0 < h \<and> h < nextHandle w \<and> map fst (frames w) = [h])"

section \<open>Auxiliary notions and example inputs\<close>


text \<open>
  Concrete inputs on which the theorems below are instantiated: a pool of three entries
  with the weights 1, 2 and 3, the six built-in entries of \<^verbatim>\<open>DEFAULT_ITEMS\<close> (ids and
  weights as in the source, the Chinese texts replaced by the ids), history records, and
  a controller that has started a spin of 2160 degrees over 3000 ms at time 0, before and
  after the animation frame at time 1500.
\<close>

definition example_item :: "string \<Rightarrow> real \<Rightarrow> SlotItem" where
  "example_item i w =
     \<lparr>slot_id = i, slot_type = Text, slot_text = i, imageUrl = None, weight = w,
      isDefault = True\<rparr>"

definition pool3 :: "SlotItem list" where
  "pool3 = [example_item ''a'' 1, example_item ''b'' 2, example_item ''c'' 3]"

definition DEFAULT_ITEMS :: "SlotItem list" where
  "DEFAULT_ITEMS =
     [example_item ''default_1'' 1, example_item ''default_2'' 1, example_item ''default_3'' 1,
      example_item ''default_4'' 1, example_item ''default_5'' 1, example_item ''default_6'' 1]"

definition example_record :: "string \<Rightarrow> HistoryRecord" where
  "example_record i = \<lparr>record_id = i, itemId = ''a'', timestamp = ''t'', result = ''a''\<rparr>"

definition example_element :: HTMLElement where
  "example_element = \<lparr>style_transform = Unset\<rparr>"

definition spinning_example :: WheelAnimationController where
  "spinning_example =
     snd (spin (new_controller (Some example_element)) 2160 3000 easeOutCubic 0)"

definition halfway_example :: WheelAnimationController where
  "halfway_example = snd (run_frame spinning_example 1500)"

text \<open>
  Further inputs: a pool in which two entries share an id; the six built-in entries
  followed by an edited copy of the first one (\<^verbatim>\<open>ConfigModal\<close> keeps the id of an edited
  built-in entry, and the custom entries are appended to the built-in ones); a pool with
  entries of weight 0; a pool with a negative weight; and a pool with the weights 23 and
  57.
\<close>

definition duplicate_pool :: "SlotItem list" where
  "duplicate_pool = [example_item ''a'' 1, example_item ''a'' 2, example_item ''b'' 3]"

definition edited_default_1 :: SlotItem where
  "edited_default_1 =
     \<lparr>slot_id = ''default_1'', slot_type = Text, slot_text = ''edited'', imageUrl = None,
      weight = 1, isDefault = False\<rparr>"

definition edited_pool :: "SlotItem list" where
  "edited_pool = DEFAULT_ITEMS @ [edited_default_1]"

definition zero_pool :: "SlotItem list" where
  "zero_pool = [example_item ''a'' 0, example_item ''b'' 1, example_item ''c'' 0]"

definition negative_pool :: "SlotItem list" where
  "negative_pool = [example_item ''a'' (- 5), example_item ''b'' 1, example_item ''c'' 1]"


section \<open>Weighted selection: the walk over the pool\<close>

lemma foldl_weight_acc:
  "foldl (\<lambda>sum item. sum + weight item) a items = a + sum_list (map weight items)"
  by (induction items arbitrary: a) simp_all

lemma totalWeight_sum_list: "totalWeight items = sum_list (map weight items)"
  by (simp add: totalWeight_def foldl_weight_acc)






lemma select_walk_in_set: "select_walk items r = Some x \<Longrightarrow> x \<in> set items"
  by (induction items arbitrary: r) (auto simp: Let_def split: if_splits)

lemma weightedRandomSelect_Inl_iff:
  "(\<exists>e. weightedRandomSelect items rnd = Inl e) \<longleftrightarrow> items = [] \<or> totalWeight items \<le> 0"
  by (auto simp: weightedRandomSelect_def split: option.splits)

lemma weightedRandomSelect_Inl_kind:
  "weightedRandomSelect items rnd = Inl e \<Longrightarrow>
     e = InvalidConfig EmptyItems \<or> e = InvalidConfig NonPositiveTotalWeight"
  by (auto simp: weightedRandomSelect_def split: option.splits if_splits)

lemma weightedRandomSelect_Inr_in_set:
  "weightedRandomSelect items rnd = Inr x \<Longrightarrow> x \<in> set items"
proof -
  assume a: "weightedRandomSelect items rnd = Inr x"
  then have ne: "items \<noteq> []" by (auto simp: weightedRandomSelect_def)
  show ?thesis
  proof (cases "select_walk items (rnd * totalWeight items)")
    case None
    with a ne have "x = items ! (length items - 1)"
      by (auto simp: weightedRandomSelect_def split: if_splits)
    with ne show ?thesis by simp
  next
    case (Some y)
    with a ne have "x = y" by (auto simp: weightedRandomSelect_def split: if_splits)
    with Some show ?thesis by (simp add: select_walk_in_set)
  qed
qed

lemma weightedRandomSelect_returns:
  "items \<noteq> [] \<Longrightarrow> 0 < totalWeight items \<Longrightarrow> \<exists>x\<in>set items. weightedRandomSelect items rnd = Inr x"
proof -
  assume ne: "items \<noteq> []" and pos: "0 < totalWeight items"
  then have "\<exists>x. weightedRandomSelect items rnd = Inr x"
    by (cases "select_walk items (rnd * totalWeight items)")
       (simp_all add: weightedRandomSelect_def)
  then show ?thesis using weightedRandomSelect_Inr_in_set by blast
qed

lemma positive_weights_total:
  "items \<noteq> [] \<Longrightarrow> \<forall>item\<in>set items. 0 < weight item \<Longrightarrow> 0 < totalWeight items"
proof (induction items)
  case Nil
  then show ?case by simp
next
  case (Cons item rest)
  show ?case
  proof (cases rest)
    case Nil
    with Cons.prems show ?thesis by (simp add: totalWeight_sum_list)
  next
    case (Cons b bs)
    with Cons.IH Cons.prems have "0 < totalWeight rest" by simp
    moreover have "0 < weight item" using Cons.prems by simp
    ultimately show ?thesis by (simp add: totalWeight_sum_list)
  qed
qed


lemma filter_unexcluded_nonempty:
  assumes "distinct (map slot_id items)" and "length excluded < length items"
  shows "filter (\<lambda>item. slot_id item \<notin> set excluded) items \<noteq> []"
proof -
  have "card (set excluded) \<le> length excluded" by (rule card_length)
  also have "\<dots> < length (map slot_id items)" using assms(2) by simp
  also have "\<dots> = card (set (map slot_id items))"
    using distinct_card [OF assms(1)] by simp
  finally have "card (set excluded) < card (set (map slot_id items))" .
  then have "\<not> set (map slot_id items) \<subseteq> set excluded"
    using card_mono [of "set excluded" "set (map slot_id items)"] by auto
  then obtain item where "item \<in> set items" "slot_id item \<notin> set excluded" by auto
  then show ?thesis by (auto simp: filter_empty_conv)
qed

lemma antiRepeatRandomSelect_delegates:
  assumes "items \<noteq> []"
  shows "\<exists>targetItems. targetItems \<noteq> [] \<and> set targetItems \<subseteq> set items \<and>
           antiRepeatRandomSelect items recentResults avoidRecentCount rnd =
             weightedRandomSelect targetItems rnd"
proof (cases "int (length items) \<le> avoidRecentCount")
  case True
  with assms have "antiRepeatRandomSelect items recentResults avoidRecentCount rnd =
      weightedRandomSelect items rnd"
    by (simp add: antiRepeatRandomSelect_def)
  with assms show ?thesis by blast
next
  case False
  let ?available =
    "filter (\<lambda>item. slot_id item \<notin> set (slice0 recentResults avoidRecentCount)) items"
  let ?target = "if length ?available > 0 then ?available else items"
  have "antiRepeatRandomSelect items recentResults avoidRecentCount rnd =
      weightedRandomSelect ?target rnd"
    using assms False by (simp add: antiRepeatRandomSelect_def Let_def)
  moreover have "?target \<noteq> []" using assms by simp
  moreover have "set ?target \<subseteq> set items" by auto
  ultimately show ?thesis by blast
qed

lemma antiRepeatRandomSelect_returns:
  assumes "items \<noteq> []" and "\<forall>item\<in>set items. 0 < weight item"
  shows "\<exists>item\<in>set items.
           antiRepeatRandomSelect items recentResults avoidRecentCount rnd = Inr item"
proof -
  from antiRepeatRandomSelect_delegates [OF assms(1)]
  obtain targetItems where t: "targetItems \<noteq> []" "set targetItems \<subseteq> set items"
    "antiRepeatRandomSelect items recentResults avoidRecentCount rnd =
       weightedRandomSelect targetItems rnd"
    by blast
  from t(2) assms(2) have "\<forall>item\<in>set targetItems. 0 < weight item" by blast
  with t(1) have "0 < totalWeight targetItems" by (rule positive_weights_total)
  from weightedRandomSelect_returns [OF t(1) this]
  obtain x where "x \<in> set targetItems" "weightedRandomSelect targetItems rnd = Inr x"
    by blast
  with t(2,3) show ?thesis by auto
qed

lemma antiRepeatRandomSelect_targetItems:
  "items \<noteq> [] \<Longrightarrow>
     antiRepeatRandomSelect items recentResults avoidRecentCount rnd =
       weightedRandomSelect (targetItems items recentResults avoidRecentCount) rnd"
  by (simp add: antiRepeatRandomSelect_def targetItems_def Let_def)

lemma targetItems_nonempty:
  "items \<noteq> [] \<Longrightarrow> targetItems items recentResults avoidRecentCount \<noteq> []"
  by (simp add: targetItems_def Let_def)

lemma targetItems_subset:
  "set (targetItems items recentResults avoidRecentCount) \<subseteq> set items"
  by (auto simp: targetItems_def Let_def)

lemma targetItems_available:
  assumes "0 \<le> avoidRecentCount" and "avoidRecentCount < int (length items)"
    and "\<exists>x\<in>set items. slot_id x \<notin> set (take (nat avoidRecentCount) recentResults)"
  shows "targetItems items recentResults avoidRecentCount =
           filter (\<lambda>item. slot_id item \<notin> set (take (nat avoidRecentCount) recentResults)) items"
proof -
  from assms(3)
  have "filter (\<lambda>item. slot_id item \<notin> set (take (nat avoidRecentCount) recentResults)) items
          \<noteq> []"
    by (auto simp: filter_empty_conv)
  with assms(1,2) show ?thesis by (simp add: targetItems_def slice0_def Let_def)
qed

section \<open>Rotation angle: the index of the selected entry\<close>

lemma findIndex_absent: "findIndex p xs = - 1 \<longleftrightarrow> (\<forall>x\<in>set xs. \<not> p x)"
proof (induction xs)
  case Nil
  show ?case by simp
next
  case (Cons x xs)
  have "- 1 \<le> findIndex p xs" for xs :: "'a list"
    by (induction xs) (auto simp: Let_def)
  then have "findIndex p xs + 1 \<noteq> - 1" by (smt (verit))
  with Cons show ?case by (auto simp: Let_def)
qed

lemma findIndex_first:
  "i < length xs \<Longrightarrow> p (xs ! i) \<Longrightarrow> \<forall>j<i. \<not> p (xs ! j) \<Longrightarrow> findIndex p xs = int i"
proof (induction xs arbitrary: i)
  case Nil
  then show ?case by simp
next
  case (Cons x xs)
  show ?case
  proof (cases i)
    case 0
    with Cons.prems show ?thesis by simp
  next
    case (Suc k)
    with Cons.prems have k: "k < length xs" "p (xs ! k)" by simp_all
    have "\<forall>j<k. \<not> p (xs ! j)"
    proof (intro allI impI)
      fix j assume "j < k"
      then have "Suc j < i" using Suc by simp
      with Cons.prems(3) have "\<not> p ((x # xs) ! Suc j)" by blast
      then show "\<not> p (xs ! j)" by simp
    qed
    with Cons.IH k have ih: "findIndex p xs = int k" by blast
    have "0 < i" using Suc by simp
    with Cons.prems(3) have "\<not> p ((x # xs) ! 0)" by blast
    then have "\<not> p x" by simp
    with ih Suc show ?thesis by (simp add: Let_def)
  qed
qed

lemma findIndex_distinct:
  assumes "distinct (map f xs)" and "i < length xs" and "f (xs ! i) = v"
  shows "findIndex (\<lambda>x. f x = v) xs = int i"
proof (rule findIndex_first [OF assms(2)])
  show "f (xs ! i) = v" by (rule assms(3))
  show "\<forall>j<i. f (xs ! j) \<noteq> v"
  proof (intro allI impI)
    fix j assume j: "j < i"
    with assms(2) have "j < length xs" by simp
    with assms(1,2) j have "map f xs ! j \<noteq> map f xs ! i"
      by (auto simp: distinct_conv_nth)
    with assms(2,3) \<open>j < length xs\<close> show "f (xs ! j) \<noteq> v" by simp
  qed
qed

lemma angle_first_occurrence:
  assumes "findIndex (\<lambda>item. slot_id item = slot_id selectedItem) items = int i"
    and "items \<noteq> []"
  shows "calculateRotationAngle items selectedItem baseRotations rnd =
           \<lparr>warnings = [],
            angle = baseRotations * 360 + (360 - real i * (360 / real (length items))) +
                    (rnd - 0.5) * (360 / real (length items)) * 0.8\<rparr>"
  using assms by (simp add: calculateRotationAngle_def Let_def)

lemma jitter_bound:
  fixes rnd s :: real
  assumes "0 \<le> rnd" and "rnd < 1" and "0 < s"
  shows "\<bar>(rnd - 0.5) * s * 0.8\<bar> \<le> 0.4 * s" and "\<bar>(rnd - 0.5) * s * 0.8\<bar> < s / 2"
proof -
  define t where "t = \<bar>rnd - 0.5\<bar> * s"
  have a: "\<bar>rnd - 0.5\<bar> \<le> 0.5" using assms(1,2) by linarith
  have "\<bar>rnd - 0.5\<bar> * s \<le> 0.5 * s"
    using a assms(3) by (intro mult_right_mono) simp_all
  then have t: "t \<le> 0.5 * s" by (simp add: t_def)
  have "\<bar>(rnd - 0.5) * s * 0.8\<bar> = \<bar>rnd - 0.5\<bar> * \<bar>s\<bar> * \<bar>0.8\<bar>"
    by (simp only: abs_mult)
  also have "\<dots> = t * 0.8" using assms(3) by (simp add: t_def)
  finally have e: "\<bar>(rnd - 0.5) * s * 0.8\<bar> = t * 0.8" .
  from t show "\<bar>(rnd - 0.5) * s * 0.8\<bar> \<le> 0.4 * s" unfolding e by linarith
  from t assms(3) show "\<bar>(rnd - 0.5) * s * 0.8\<bar> < s / 2" unfolding e by linarith
qed

section \<open>Probabilities: digits and rounding\<close>





















lemma round_double_zero: "round_double 0 = 0"
  by (simp add: round_double_def round_half_even_def)






section \<open>History: one added record\<close>

lemma addRecord_written:
  "getRecords (addRecord True st record) = record # take 99 (getRecords st)"
  by (simp add: addRecord_def saveRecords_def getRecords_def Let_def take_Cons' split: option.splits)

section \<open>Controller: what holds in every reachable state\<close>

lemma inv_new: "controller_inv (new_controller el)"
  by (simp add: controller_inv_def new_controller_def)

lemma inv_spin:
  assumes "controller_inv w"
  shows "controller_inv (snd (spin w targetAngle dur ease now))"
proof (cases "element w = None \<or> isSpinning w")
  case True
  then have "snd (spin w targetAngle dur ease now) = w" by (auto simp: spin_def)
  with assms show ?thesis by simp
next
  case False
  with assms have idle: "animationId w = None" "frames w = []" "0 < nextHandle w"
    by (auto simp: controller_inv_def split: option.splits)
  from False show ?thesis
    using idle by (simp add: spin_def requestAnimationFrame_def controller_inv_def Let_def)
qed

lemma inv_animate:
  assumes "isSpinning w" and "element w \<noteq> None" and "frames w = []" and "0 < nextHandle w"
  shows "controller_inv (snd (animate a w now))"
  using assms
  by (auto simp: animate_def requestAnimationFrame_def controller_inv_def Let_def
      split: option.splits)

lemma inv_run_frame:
  assumes "controller_inv w"
  shows "controller_inv (snd (run_frame w now))"
proof (cases "frames w")
  case Nil
  with assms show ?thesis by (simp add: run_frame_def)
next
  case (Cons ha rest)
  obtain h a where ha: "ha = (h, a)" by (cases ha)
  from assms Cons have some: "animationId w \<noteq> None"
    by (auto simp: controller_inv_def split: option.splits)
  with assms have spinning: "isSpinning w" "element w \<noteq> None" "0 < nextHandle w"
    by (auto simp: controller_inv_def)
  from assms Cons some have "rest = []"
    by (auto simp: controller_inv_def split: option.splits)
  have "controller_inv (snd (animate a (w\<lparr>frames := rest\<rparr>) now))"
    by (rule inv_animate) (simp_all add: spinning \<open>rest = []\<close>)
  with Cons ha show ?thesis by (simp add: run_frame_def)
qed

lemma stop_reachable_form:
  assumes "controller_inv w"
  shows "stop w = w\<lparr>isSpinning := False, animationId := None, frames := []\<rparr>"
proof (cases "animationId w")
  case None
  with assms have "frames w = []" by (simp add: controller_inv_def)
  with None show ?thesis by (simp add: stop_def)
next
  case (Some h)
  with assms have h: "0 < h" "map fst (frames w) = [h]" by (simp_all add: controller_inv_def)
  then have "filter (\<lambda>(h', a). h' \<noteq> h) (frames w) = []"
    by (cases "frames w") auto
  with Some h(1) show ?thesis by (simp add: stop_def cancelAnimationFrame_def)
qed

lemma inv_stop:
  assumes "controller_inv w"
  shows "controller_inv (stop w)"
  using assms unfolding stop_reachable_form [OF assms]
  by (simp add: controller_inv_def)

lemma inv_reset:
  assumes "controller_inv w"
  shows "controller_inv (reset w)"
  using inv_stop [OF assms]
  by (auto simp: reset_def controller_inv_def Let_def split: option.splits)

lemma reachable_inv: "reachable w \<Longrightarrow> controller_inv w"
proof (induction rule: reachable.induct)
  case (reachable_new el)
  show ?case by (rule inv_new)
next
  case (reachable_spin w dur targetAngle ease now)
  then show ?case by (simp add: inv_spin)
next
  case (reachable_frame w now)
  then show ?case by (simp add: inv_run_frame)
next
  case (reachable_stop w)
  then show ?case by (simp add: inv_stop)
next
  case (reachable_reset w)
  then show ?case by (simp add: inv_reset)
qed

lemma spinning_example_eq:
  "spinning_example =
     \<lparr>element = Some example_element, isSpinning = True, currentRotation = 0,
      animationId = Some 1,
      frames = [(1, \<lparr>startTime = 0, duration = 3000, easing = easeOutCubic,
                      startRotation = 0, totalRotation = 2160\<rparr>)],
      nextHandle = 2\<rparr>"
  by (simp add: spinning_example_def spin_def new_controller_def requestAnimationFrame_def
      Let_def)

lemma reachable_spinning_example: "reachable spinning_example"
  unfolding spinning_example_def
  by (rule reachable_spin [OF reachable_new]) simp

lemma halfway_example_eq:
  "halfway_example =
     \<lparr>element = Some \<lparr>style_transform = Rotate 1890\<rparr>, isSpinning = True,
      currentRotation = 1890, animationId = Some 2,
      frames = [(2, \<lparr>startTime = 0, duration = 3000, easing = easeOutCubic,
                      startRotation = 0, totalRotation = 2160\<rparr>)],
      nextHandle = 3\<rparr>"
  by (simp add: halfway_example_def spinning_example_eq run_frame_def animate_def
      requestAnimationFrame_def example_element_def easeOutCubic_def Let_def power3_eq_cube)

lemma reachable_halfway_example: "reachable halfway_example"
  unfolding halfway_example_def
  by (rule reachable_frame [OF reachable_spinning_example])

section \<open>Facts about the example inputs\<close>

lemma pool3_total: "totalWeight pool3 = 6"
  by (simp add: pool3_def example_item_def totalWeight_def)

lemma pool3_nonempty: "pool3 \<noteq> []"
  by (simp add: pool3_def)

lemma pool3_distinct: "distinct (map slot_id pool3)"
  by (simp add: pool3_def example_item_def)

lemma pool3_positive: "\<forall>item\<in>set pool3. 0 < weight item"
  by (simp add: pool3_def example_item_def)

lemma DEFAULT_ITEMS_distinct: "distinct (map slot_id DEFAULT_ITEMS)"
  by (simp add: DEFAULT_ITEMS_def example_item_def)













section \<open>The claims\<close>



text \<open>
  C2, as it is stated, fails on a pool in which two entries share an id: with the ids
  \<open>a\<close>, \<open>a\<close>, \<open>b\<close>, positive weights, \<open>avoidRecentCount = 2\<close> and the recent ids \<open>a\<close>, \<open>b\<close>,
  the filter leaves nothing, \<^verbatim>\<open>antiRepeatRandomSelect\<close> falls back to the whole pool and
  returns an entry with the recent id \<open>a\<close>.
\<close>

theorem antiRepeatRandomSelect_avoids_recent_counterexample:
  "0 < weight (duplicate_pool ! 0) \<and> 0 < weight (duplicate_pool ! 1) \<and>
   0 < weight (duplicate_pool ! 2) \<and> length duplicate_pool = 3 \<and>
   (2::int) < int (length duplicate_pool) \<and>
   antiRepeatRandomSelect duplicate_pool [''a'', ''b''] 2 (1 / 2) = Inr (duplicate_pool ! 1) \<and>
   slot_id (duplicate_pool ! 1) = ''a'' \<and>
   ''a'' \<in> set (take (nat 2) [''a'', ''b''])"
  by (simp add: duplicate_pool_def example_item_def antiRepeatRandomSelect_def slice0_def
      weightedRandomSelect_def totalWeight_def)

text \<open>
  C2, amended. For a pool with positive weights and a count with
  \<open>0 \<le> avoidRecentCount < pool.length\<close>, \<^verbatim>\<open>antiRepeatRandomSelect\<close> returns an entry of
  the pool, whatever the random value. The id of that entry is outside the first
  \<open>avoidRecentCount\<close> elements of \<^verbatim>\<open>recentResults\<close> exactly when some entry of the pool has
  its id outside them; this is so whenever the ids of the pool are pairwise distinct.
  When every id of the pool is among them, which needs a repeated id, the draw is made
  from the whole pool and returns a recent id.
\<close>

theorem antiRepeatRandomSelect_avoids_recent:
  assumes "\<forall>item\<in>set items. 0 < weight item"
    and "0 \<le> avoidRecentCount"
    and "avoidRecentCount < int (length items)"
  shows "\<exists>item\<in>set items.
           antiRepeatRandomSelect items recentResults avoidRecentCount rnd = Inr item \<and>
           (slot_id item \<notin> set (take (nat avoidRecentCount) recentResults) \<longleftrightarrow>
              (\<exists>x\<in>set items.
                 slot_id x \<notin> set (take (nat avoidRecentCount) recentResults))) \<and>
           (distinct (map slot_id items) \<longrightarrow>
              slot_id item \<notin> set (take (nat avoidRecentCount) recentResults))"
proof -
  let ?excluded = "take (nat avoidRecentCount) recentResults"
  let ?target = "targetItems items recentResults avoidRecentCount"
  from assms(2,3) have ne: "items \<noteq> []" by auto
  have tne: "?target \<noteq> []" by (rule targetItems_nonempty [OF ne])
  have sub: "set ?target \<subseteq> set items" by (rule targetItems_subset)
  with assms(1) have "\<forall>item\<in>set ?target. 0 < weight item" by blast
  with tne have "0 < totalWeight ?target" by (rule positive_weights_total)
  from weightedRandomSelect_returns [OF tne this]
  obtain item where item: "item \<in> set ?target" "weightedRandomSelect ?target rnd = Inr item"
    by blast
  have draw: "antiRepeatRandomSelect items recentResults avoidRecentCount rnd = Inr item"
    using antiRepeatRandomSelect_targetItems [OF ne] item(2) by simp
  have mem: "item \<in> set items" using item(1) sub by blast
  have iff: "slot_id item \<notin> set ?excluded \<longleftrightarrow> (\<exists>x\<in>set items. slot_id x \<notin> set ?excluded)"
  proof
    assume "slot_id item \<notin> set ?excluded"
    with mem show "\<exists>x\<in>set items. slot_id x \<notin> set ?excluded" by blast
  next
    assume ex: "\<exists>x\<in>set items. slot_id x \<notin> set ?excluded"
    have "?target = filter (\<lambda>item. slot_id item \<notin> set ?excluded) items"
      by (rule targetItems_available [OF assms(2,3) ex])
    with item(1) show "slot_id item \<notin> set ?excluded" by simp
  qed
  have dist: "distinct (map slot_id items) \<longrightarrow> slot_id item \<notin> set ?excluded"
  proof
    assume d: "distinct (map slot_id items)"
    have len: "length ?excluded < length items" using assms(2,3) by simp
    from filter_unexcluded_nonempty [OF d len]
    have "\<exists>x\<in>set items. slot_id x \<notin> set ?excluded"
      by (auto simp: filter_empty_conv)
    with iff show "slot_id item \<notin> set ?excluded" by blast
  qed
  from mem draw iff dist show ?thesis by blast
qed

theorem antiRepeatRandomSelect_avoids_recent_witness:
  "list_all (\<lambda>item. 0 < weight item) pool3 \<and> (0::int) \<le> 2 \<and> 2 < int (length pool3) \<and>
   distinct (map slot_id pool3) \<and>
   antiRepeatRandomSelect pool3 [''a'', ''b'', ''c''] 2 (1 / 2) = Inr (pool3 ! 2) \<and>
   slot_id (pool3 ! 2) = ''c'' \<and> take (nat 2) [''a'', ''b'', ''c''] = [''a'', ''b''] \<and>
   list_all (\<lambda>item. 0 < weight item) duplicate_pool \<and> 2 < int (length duplicate_pool) \<and>
   list_all (\<lambda>x. slot_id x \<in> set (take (nat 2) [''a'', ''b''])) duplicate_pool \<and>
   antiRepeatRandomSelect duplicate_pool [''a'', ''b''] 2 (1 / 2) = Inr (duplicate_pool ! 1)"
proof -
  have l: "(2::int) < int (length pool3)" by (simp add: pool3_def)
  have e: "antiRepeatRandomSelect pool3 [''a'', ''b'', ''c''] 2 (1 / 2) = Inr (pool3 ! 2)"
    by (simp add: antiRepeatRandomSelect_def slice0_def pool3_def example_item_def
        weightedRandomSelect_def totalWeight_def)
  from antiRepeatRandomSelect_avoids_recent
         [OF pool3_positive _ l, of "[''a'', ''b'', ''c'']" "1 / 2"] e pool3_distinct
  have "slot_id (pool3 ! 2) \<notin> set (take (nat 2) [''a'', ''b'', ''c''])" by simp
  then have c: "slot_id (pool3 ! 2) = ''c''" by (simp add: pool3_def example_item_def)
  have d: "list_all (\<lambda>item. 0 < weight item) duplicate_pool"
    "2 < int (length duplicate_pool)"
    "list_all (\<lambda>x. slot_id x \<in> set (take (nat 2) [''a'', ''b''])) duplicate_pool"
    "antiRepeatRandomSelect duplicate_pool [''a'', ''b''] 2 (1 / 2) = Inr (duplicate_pool ! 1)"
    by (simp_all add: duplicate_pool_def example_item_def antiRepeatRandomSelect_def slice0_def
        weightedRandomSelect_def totalWeight_def)
  from l e c d pool3_distinct pool3_positive show ?thesis
    by (simp add: list_all_iff numeral_2_eq_2)
qed

text \<open>
  C3. In every state the controller can reach in which \<^verbatim>\<open>isSpinning\<close> is true, a call of
  \<^verbatim>\<open>spin\<close> is rejected with \<open>AlreadySpinning\<close> (the promise is rejected, not pending
  and not fulfilled), and the whole state after the call is the state before it: in
  particular \<^verbatim>\<open>isSpinning\<close> and \<^verbatim>\<open>currentRotation\<close> are unchanged.
\<close>

theorem spin_rejected_while_spinning:
  assumes "reachable w" and "isSpinning w"
  shows "spin w targetAngle dur ease now = (Rejected AlreadySpinning, w)"
proof -
  from assms(1) have "controller_inv w" by (rule reachable_inv)
  with assms(2) have "element w \<noteq> None" by (simp add: controller_inv_def)
  with assms(2) show ?thesis by (simp add: spin_def)
qed

theorem spin_rejected_while_spinning_witness:
  "reachable spinning_example \<and> isSpinning spinning_example \<and>
   spin spinning_example 90 3000 easeOutCubic 16 = (Rejected AlreadySpinning, spinning_example)"
proof -
  have s: "isSpinning spinning_example" by (simp add: spinning_example_eq)
  show ?thesis
    using reachable_spinning_example s
      spin_rejected_while_spinning [OF reachable_spinning_example s, of 90 3000 easeOutCubic 16]
    by simp
qed

text \<open>
  C4, as it is stated, fails when an earlier entry of the pool carries the id of the
  chosen entry: \<^verbatim>\<open>findIndex\<close> stops at the first entry with that id. In the pool of the
  six built-in entries followed by an edited copy of the first one, the chosen entry at
  index 6 is given the angle of index 0, which is 2160 for \<open>baseRotations = 5\<close> and the
  random value \<open>1/2\<close>, further from \<open>5 * 360 + (360 - 6 * (360 / 7))\<close> than any jitter of
  at most \<open>0.4 * (360 / 7)\<close> allows.
\<close>

theorem calculateRotationAngle_target_counterexample:
  "length edited_pool = 7 \<and> edited_pool ! 6 = edited_default_1 \<and>
   edited_pool ! 0 \<noteq> edited_default_1 \<and>
   angle (calculateRotationAngle edited_pool (edited_pool ! 6) 5 (1 / 2)) = 2160 \<and>
   0.4 * (360 / 7) < \<bar>2160 - (5 * 360 + (360 - 6 * (360 / 7 :: real)))\<bar>"
  by (simp add: edited_pool_def DEFAULT_ITEMS_def edited_default_1_def example_item_def
      calculateRotationAngle_def)

text \<open>
  C4, amended. Let the pool have \<open>n\<close> entries and let \<open>i\<close> be the index of the first entry
  that carries the id of the chosen entry; this is the index of the chosen entry itself
  when no earlier entry shares its id, and so in every pool with pairwise distinct ids.
  For a random value \<open>rnd\<close> in \<open>[0, 1)\<close>, \<^verbatim>\<open>calculateRotationAngle\<close> logs nothing and returns
  \<open>baseRotations * 360 + (360 - i * (360 / n)) + jitter\<close> with
  \<open>|jitter| \<le> 0.4 * (360 / n)\<close>, which is less than half a sector. For \<open>n = 6\<close>,
  \<open>baseRotations = 5\<close> and \<open>i = 0\<close> the result is within 24 degrees of 2160. This holds for
  every \<open>baseRotations\<close>, so for those from 1 on.
\<close>

theorem calculateRotationAngle_target:
  assumes "i < length items"
    and "slot_id (items ! i) = slot_id selectedItem"
    and "\<forall>j<i. slot_id (items ! j) \<noteq> slot_id selectedItem"
    and "0 \<le> rnd" and "rnd < 1"
  shows "\<exists>jitter.
           calculateRotationAngle items selectedItem baseRotations rnd =
             \<lparr>warnings = [],
              angle = baseRotations * 360 + (360 - real i * (360 / real (length items))) + jitter\<rparr> \<and>
           \<bar>jitter\<bar> \<le> 0.4 * (360 / real (length items)) \<and>
           \<bar>jitter\<bar> < (360 / real (length items)) / 2 \<and>
           (length items = 6 \<and> i = 0 \<and> baseRotations = 5 \<longrightarrow>
              \<bar>angle (calculateRotationAngle items selectedItem baseRotations rnd) - 2160\<bar> \<le> 24)"
proof -
  let ?s = "360 / real (length items)"
  let ?jitter = "(rnd - 0.5) * ?s * 0.8"
  from assms(1) have ne: "items \<noteq> []" by auto
  then have s: "0 < ?s" by simp
  have idx: "findIndex (\<lambda>item. slot_id item = slot_id selectedItem) items = int i"
    by (rule findIndex_first [OF assms(1)]) (use assms(2,3) in simp_all)
  have eq: "calculateRotationAngle items selectedItem baseRotations rnd =
             \<lparr>warnings = [],
              angle = baseRotations * 360 + (360 - real i * ?s) + ?jitter\<rparr>"
    by (rule angle_first_occurrence [OF idx ne])
  have b1: "\<bar>?jitter\<bar> \<le> 0.4 * ?s" by (rule jitter_bound(1) [OF assms(4,5) s])
  have b2: "\<bar>?jitter\<bar> < ?s / 2" by (rule jitter_bound(2) [OF assms(4,5) s])
  have part: "length items = 6 \<and> i = 0 \<and> baseRotations = 5 \<longrightarrow>
      \<bar>angle (calculateRotationAngle items selectedItem baseRotations rnd) - 2160\<bar> \<le> 24"
  proof
    assume h: "length items = 6 \<and> i = 0 \<and> baseRotations = 5"
    with b1 have "\<bar>(rnd - 0.5) * 60 * 0.8\<bar> \<le> 24" by simp
    moreover from h eq have
      "angle (calculateRotationAngle items selectedItem baseRotations rnd) =
         2160 + (rnd - 0.5) * 60 * 0.8" by simp
    ultimately show
      "\<bar>angle (calculateRotationAngle items selectedItem baseRotations rnd) - 2160\<bar> \<le> 24"
      by simp
  qed
  from eq b1 b2 part show ?thesis by blast
qed

theorem calculateRotationAngle_target_witness:
  "length DEFAULT_ITEMS = 6 \<and>
   calculateRotationAngle DEFAULT_ITEMS (DEFAULT_ITEMS ! 0) 5 (3 / 4) =
     \<lparr>warnings = [], angle = 2172\<rparr> \<and>
   \<bar>angle (calculateRotationAngle DEFAULT_ITEMS (DEFAULT_ITEMS ! 0) 5 (3 / 4)) - 2160\<bar> \<le> 24 \<and>
   length duplicate_pool = 3 \<and>
   slot_id (duplicate_pool ! 0) \<noteq> slot_id (duplicate_pool ! 2) \<and>
   slot_id (duplicate_pool ! 1) \<noteq> slot_id (duplicate_pool ! 2) \<and>
   calculateRotationAngle duplicate_pool (duplicate_pool ! 2) 5 (3 / 4) =
     \<lparr>warnings = [], angle = 1944\<rparr>"
proof -
  have l: "length DEFAULT_ITEMS = 6" by (simp add: DEFAULT_ITEMS_def)
  then have i: "0 < length DEFAULT_ITEMS" by simp
  have e: "calculateRotationAngle DEFAULT_ITEMS (DEFAULT_ITEMS ! 0) 5 (3 / 4) =
      \<lparr>warnings = [], angle = 2172\<rparr>"
    by (simp add: calculateRotationAngle_def DEFAULT_ITEMS_def example_item_def)
  from calculateRotationAngle_target [OF i refl, of "3 / 4" 5] l
  have b: "\<bar>angle (calculateRotationAngle DEFAULT_ITEMS (DEFAULT_ITEMS ! 0) 5 (3 / 4)) - 2160\<bar>
      \<le> 24"
    by auto
  have d: "length duplicate_pool = 3"
    "slot_id (duplicate_pool ! 0) \<noteq> slot_id (duplicate_pool ! 2)"
    "slot_id (duplicate_pool ! 1) \<noteq> slot_id (duplicate_pool ! 2)"
    by (simp_all add: duplicate_pool_def example_item_def)
  then have i2: "2 < length duplicate_pool" by simp
  have first: "\<forall>j<2. slot_id (duplicate_pool ! j) \<noteq> slot_id (duplicate_pool ! 2)"
    using d(2,3) by (simp add: less_Suc_eq numeral_2_eq_2)
  from calculateRotationAngle_target [OF i2 refl first, of "3 / 4" 5]
  obtain jitter where
    "calculateRotationAngle duplicate_pool (duplicate_pool ! 2) 5 (3 / 4) =
       \<lparr>warnings = [], angle = 5 * 360 + (360 - real 2 * (360 / real (length duplicate_pool))) + jitter\<rparr>"
    by auto
  then have w: "warnings (calculateRotationAngle duplicate_pool (duplicate_pool ! 2) 5 (3 / 4)) = []"
    by simp
  have a: "angle (calculateRotationAngle duplicate_pool (duplicate_pool ! 2) 5 (3 / 4)) = 1944"
    by (simp add: calculateRotationAngle_def duplicate_pool_def example_item_def)
  from w a have e2: "calculateRotationAngle duplicate_pool (duplicate_pool ! 2) 5 (3 / 4) =
      \<lparr>warnings = [], angle = 1944\<rparr>" by (cases "calculateRotationAngle duplicate_pool (duplicate_pool ! 2) 5 (3 / 4)") simp
  from l e b d e2 show ?thesis by simp
qed

text \<open>
  C5, as it is stated, fails for the draw operation in both directions, because
  \<^verbatim>\<open>antiRepeatRandomSelect\<close> hands the filtered list to \<^verbatim>\<open>weightedRandomSelect\<close> and that
  list is what is tested. The pool with the weights 0, 1, 0 has total weight 1, but with
  the id of the middle entry excluded the draw throws; the pool with the weights -5, 1, 1
  has total weight -3, but with the id of the first entry excluded the draw returns an
  entry.
\<close>

theorem weightedRandomSelect_InvalidConfig_iff_counterexample:
  "zero_pool \<noteq> [] \<and> 0 < totalWeight zero_pool \<and>
   antiRepeatRandomSelect zero_pool [''b''] 1 (1 / 2) =
     Inl (InvalidConfig NonPositiveTotalWeight) \<and>
   totalWeight negative_pool \<le> 0 \<and>
   antiRepeatRandomSelect negative_pool [''a''] 1 (1 / 2) = Inr (negative_pool ! 1)"
  by (simp add: zero_pool_def negative_pool_def example_item_def antiRepeatRandomSelect_def
      slice0_def weightedRandomSelect_def totalWeight_def)

text \<open>
  C5, amended. \<^verbatim>\<open>weightedRandomSelect\<close> throws exactly when the list it is given is empty
  or has a total weight that is not positive, the error is then \<open>InvalidConfig\<close>, and
  otherwise it returns an entry of the list. The draw operation \<^verbatim>\<open>antiRepeatRandomSelect\<close>
  throws exactly when the pool is empty or the list it passes on (the entries whose ids
  are not excluded, or the whole pool when none is left or the pool has at most
  \<^verbatim>\<open>avoidRecentCount\<close> entries) has a total weight that is not positive; the error is then
  \<open>InvalidConfig\<close>, and otherwise it returns an entry of the pool. On pools with positive
  weights this is exactly when the pool is empty or its total weight is not positive.
\<close>

theorem weightedRandomSelect_InvalidConfig_iff:
  "((\<exists>p. weightedRandomSelect items rnd = Inl (InvalidConfig p)) \<longleftrightarrow>
      items = [] \<or> totalWeight items \<le> 0) \<and>
   (\<forall>e. weightedRandomSelect items rnd = Inl e \<longrightarrow> (\<exists>p. e = InvalidConfig p)) \<and>
   (items \<noteq> [] \<and> 0 < totalWeight items \<longrightarrow>
      (\<exists>item\<in>set items. weightedRandomSelect items rnd = Inr item)) \<and>
   ((\<exists>p. antiRepeatRandomSelect items recentResults avoidRecentCount rnd =
           Inl (InvalidConfig p)) \<longleftrightarrow>
      items = [] \<or> totalWeight (targetItems items recentResults avoidRecentCount) \<le> 0) \<and>
   (\<forall>e. antiRepeatRandomSelect items recentResults avoidRecentCount rnd = Inl e \<longrightarrow>
      (\<exists>p. e = InvalidConfig p)) \<and>
   (items \<noteq> [] \<and> 0 < totalWeight (targetItems items recentResults avoidRecentCount) \<longrightarrow>
      (\<exists>item\<in>set items.
         antiRepeatRandomSelect items recentResults avoidRecentCount rnd = Inr item)) \<and>
   ((\<forall>item\<in>set items. 0 < weight item) \<longrightarrow>
      ((\<exists>p. antiRepeatRandomSelect items recentResults avoidRecentCount rnd =
              Inl (InvalidConfig p)) \<longleftrightarrow>
         items = [] \<or> totalWeight items \<le> 0))"
proof -
  let ?target = "targetItems items recentResults avoidRecentCount"
  let ?draw = "antiRepeatRandomSelect items recentResults avoidRecentCount rnd"
  have w1: "(\<exists>p. weightedRandomSelect items rnd = Inl (InvalidConfig p)) \<longleftrightarrow>
      items = [] \<or> totalWeight items \<le> 0"
    using weightedRandomSelect_Inl_iff [of items rnd]
      weightedRandomSelect_Inl_kind [of items rnd] by blast
  have w2: "\<forall>e. weightedRandomSelect items rnd = Inl e \<longrightarrow> (\<exists>p. e = InvalidConfig p)"
    using weightedRandomSelect_Inl_kind by blast
  have w3: "items \<noteq> [] \<and> 0 < totalWeight items \<longrightarrow>
      (\<exists>item\<in>set items. weightedRandomSelect items rnd = Inr item)"
    using weightedRandomSelect_returns by blast
  have d1: "(\<exists>p. ?draw = Inl (InvalidConfig p)) \<longleftrightarrow> items = [] \<or> totalWeight ?target \<le> 0"
  proof (cases "items = []")
    case True
    then show ?thesis by (simp add: antiRepeatRandomSelect_def)
  next
    case False
    have "(\<exists>p. weightedRandomSelect ?target rnd = Inl (InvalidConfig p)) \<longleftrightarrow>
        ?target = [] \<or> totalWeight ?target \<le> 0"
      using weightedRandomSelect_Inl_iff [of ?target rnd]
        weightedRandomSelect_Inl_kind [of ?target rnd] by blast
    with False targetItems_nonempty [OF False, of recentResults avoidRecentCount]
    show ?thesis by (simp add: antiRepeatRandomSelect_targetItems [OF False])
  qed
  have d2: "\<forall>e. ?draw = Inl e \<longrightarrow> (\<exists>p. e = InvalidConfig p)"
  proof (cases "items = []")
    case True
    then show ?thesis by (simp add: antiRepeatRandomSelect_def)
  next
    case False
    then show ?thesis
      using weightedRandomSelect_Inl_kind [of ?target rnd]
      by (auto simp: antiRepeatRandomSelect_targetItems [OF False])
  qed
  have d3: "items \<noteq> [] \<and> 0 < totalWeight ?target \<longrightarrow> (\<exists>item\<in>set items. ?draw = Inr item)"
  proof
    assume h: "items \<noteq> [] \<and> 0 < totalWeight ?target"
    then have ne: "items \<noteq> []" and pos: "0 < totalWeight ?target" by simp_all
    have tne: "?target \<noteq> []" by (rule targetItems_nonempty [OF ne])
    from weightedRandomSelect_returns [OF tne pos]
    obtain item where "item \<in> set ?target" "weightedRandomSelect ?target rnd = Inr item"
      by blast
    with targetItems_subset [of items recentResults avoidRecentCount]
    show "\<exists>item\<in>set items. ?draw = Inr item"
      by (auto simp: antiRepeatRandomSelect_targetItems [OF ne])
  qed
  have d4: "(\<forall>item\<in>set items. 0 < weight item) \<longrightarrow>
      ((\<exists>p. ?draw = Inl (InvalidConfig p)) \<longleftrightarrow> items = [] \<or> totalWeight items \<le> 0)"
  proof
    assume pos: "\<forall>item\<in>set items. 0 < weight item"
    show "(\<exists>p. ?draw = Inl (InvalidConfig p)) \<longleftrightarrow> items = [] \<or> totalWeight items \<le> 0"
    proof (cases "items = []")
      case True
      then show ?thesis by (simp add: antiRepeatRandomSelect_def)
    next
      case False
      from antiRepeatRandomSelect_returns [OF False pos, of recentResults avoidRecentCount rnd]
      obtain item where "?draw = Inr item" by blast
      then have "\<not> (\<exists>p. ?draw = Inl (InvalidConfig p))" by simp
      moreover have "0 < totalWeight items" by (rule positive_weights_total [OF False pos])
      ultimately show ?thesis using False by simp
    qed
  qed
  from w1 w2 w3 d1 d2 d3 d4 show ?thesis by blast
qed

theorem weightedRandomSelect_InvalidConfig_iff_witness:
  "weightedRandomSelect [] (1 / 2) = Inl (InvalidConfig EmptyItems) \<and>
   totalWeight [example_item ''z'' 0] \<le> 0 \<and>
   weightedRandomSelect [example_item ''z'' 0] (1 / 2) = Inl (InvalidConfig NonPositiveTotalWeight) \<and>
   pool3 \<noteq> [] \<and> 0 < totalWeight pool3 \<and> list_all (\<lambda>item. 0 < weight item) pool3 \<and>
   weightedRandomSelect pool3 (1 / 2) = Inr (pool3 ! 1) \<and>
   0 < totalWeight (targetItems pool3 [''b''] 2) \<and>
   antiRepeatRandomSelect pool3 [''b''] 2 (1 / 2) = Inr (pool3 ! 2) \<and>
   antiRepeatRandomSelect [] [''b''] 2 (1 / 2) = Inl (InvalidConfig EmptyItems) \<and>
   zero_pool \<noteq> [] \<and> totalWeight (targetItems zero_pool [''b''] 1) \<le> 0 \<and>
   antiRepeatRandomSelect zero_pool [''b''] 1 (1 / 2) =
     Inl (InvalidConfig NonPositiveTotalWeight)"
proof -
  have a: "weightedRandomSelect [] (1 / 2) = Inl (InvalidConfig EmptyItems)"
    by (simp add: weightedRandomSelect_def)
  have z: "totalWeight [example_item ''z'' 0] \<le> 0"
    by (simp add: totalWeight_def example_item_def)
  from weightedRandomSelect_InvalidConfig_iff [of "[example_item ''z'' 0]" "1 / 2"] z
  obtain p where "weightedRandomSelect [example_item ''z'' 0] (1 / 2) = Inl (InvalidConfig p)"
    by blast
  then have b: "weightedRandomSelect [example_item ''z'' 0] (1 / 2) =
      Inl (InvalidConfig NonPositiveTotalWeight)"
    by (simp add: weightedRandomSelect_def split: if_splits)
  have c: "weightedRandomSelect pool3 (1 / 2) = Inr (pool3 ! 1)"
    by (simp add: weightedRandomSelect_def pool3_total)
       (simp add: pool3_def example_item_def)
  have t: "0 < totalWeight (targetItems pool3 [''b''] 2)"
    by (simp add: targetItems_def slice0_def pool3_def example_item_def totalWeight_def)
  have d: "antiRepeatRandomSelect pool3 [''b''] 2 (1 / 2) = Inr (pool3 ! 2)"
    by (simp add: antiRepeatRandomSelect_def slice0_def pool3_def example_item_def
        weightedRandomSelect_def totalWeight_def)
  have e: "antiRepeatRandomSelect [] [''b''] 2 (1 / 2) = Inl (InvalidConfig EmptyItems)"
    by (simp add: antiRepeatRandomSelect_def)
  have zn: "zero_pool \<noteq> []" by (simp add: zero_pool_def)
  have zt: "totalWeight (targetItems zero_pool [''b''] 1) \<le> 0"
    by (simp add: targetItems_def slice0_def zero_pool_def example_item_def totalWeight_def)
  from weightedRandomSelect_InvalidConfig_iff
         [where items = zero_pool and rnd = "1 / 2" and recentResults = "[''b'']"
            and avoidRecentCount = 1] zn zt
  obtain p' where "antiRepeatRandomSelect zero_pool [''b''] 1 (1 / 2) = Inl (InvalidConfig p')"
    by blast
  then have f: "antiRepeatRandomSelect zero_pool [''b''] 1 (1 / 2) =
      Inl (InvalidConfig NonPositiveTotalWeight)"
    by (simp add: antiRepeatRandomSelect_def slice0_def zero_pool_def example_item_def
        weightedRandomSelect_def totalWeight_def split: if_splits)
  from a z b c t d e zn zt f pool3_positive show ?thesis
    by (simp add: pool3_nonempty pool3_total list_all_iff)
qed

text \<open>
  C6. In every controller state, spinning or not and at any angle, \<^verbatim>\<open>reset()\<close> gives a
  state with \<^verbatim>\<open>currentRotation = 0\<close> and \<^verbatim>\<open>isSpinning = false\<close>, and the element, when
  there is one, has its transform set to the rotation by 0 degrees.
\<close>

theorem reset_zero_idle:
  "currentRotation (reset w) = 0 \<and> \<not> isSpinning (reset w) \<and>
   element (reset w) = map_option (\<lambda>el. el\<lparr>style_transform := Rotate 0\<rparr>) (element w)"
  by (cases "element w"; cases "animationId w")
     (simp_all add: reset_def stop_def cancelAnimationFrame_def Let_def)

text \<open>
  C7, as it is stated, fails on the empty pool: no id occurs in it, and the guard at the
  head of \<^verbatim>\<open>calculateRotationAngle\<close> returns 0 without a warning, not
  \<open>baseRotations * 360\<close>.
\<close>

theorem calculateRotationAngle_absent_counterexample:
  "slot_id (example_item ''x'' 1) \<notin> slot_id ` set [] \<and>
   angle (calculateRotationAngle [] (example_item ''x'' 1) 5 (1 / 2)) \<noteq> 5 * 360 \<and>
   warnings (calculateRotationAngle [] (example_item ''x'' 1) 5 (1 / 2)) = []"
  by (simp add: calculateRotationAngle_def)

text \<open>
  C7, amended. If the id of the chosen entry does not occur in the pool, then for a
  non-empty pool \<^verbatim>\<open>calculateRotationAngle\<close> logs one warning and returns
  \<open>baseRotations * 360\<close>, and for the empty pool it returns 0 and logs nothing. In both
  cases it returns a number: the function has no path that throws.
\<close>

theorem calculateRotationAngle_absent:
  assumes "slot_id selectedItem \<notin> slot_id ` set items"
  shows "calculateRotationAngle items selectedItem baseRotations rnd =
           (if items = [] then \<lparr>warnings = [], angle = 0\<rparr>
            else \<lparr>warnings = [''the selected item is not in the wheel list''],
                  angle = baseRotations * 360\<rparr>)"
proof -
  have "\<forall>item\<in>set items. \<not> slot_id item = slot_id selectedItem"
    using assms by (metis image_eqI)
  then have "findIndex (\<lambda>item. slot_id item = slot_id selectedItem) items = - 1"
    by (simp only: findIndex_absent)
  then show ?thesis by (simp add: calculateRotationAngle_def)
qed

theorem calculateRotationAngle_absent_witness:
  "slot_id (example_item ''x'' 1) \<notin> slot_id ` set pool3 \<and>
   calculateRotationAngle pool3 (example_item ''x'' 1) 5 (1 / 2) =
     \<lparr>warnings = [''the selected item is not in the wheel list''], angle = 1800\<rparr>"
proof -
  have h: "slot_id (example_item ''x'' 1) \<notin> slot_id ` set pool3"
    by (simp add: pool3_def example_item_def)
  from calculateRotationAngle_absent [OF h, of 5 "1 / 2"] h show ?thesis
    by (simp add: pool3_nonempty)
qed




text \<open>
  C9. When the browser accepts the write, \<^verbatim>\<open>addRecord\<close> stores the new record followed
  by the first 99 records of the list it loaded, which is the first 100 elements of the
  list with the new record in front: the stored list has at most 100 elements, its head is
  the record just added, and what is dropped is the tail of the old list from its 100th
  record on, the oldest ones.
\<close>

theorem addRecord_prepend_cap:
  assumes "written"
  shows "getRecords (addRecord written st record) = take 100 (record # getRecords st) \<and>
         getRecords (addRecord written st record) = record # take 99 (getRecords st) \<and>
         length (getRecords (addRecord written st record)) \<le> 100 \<and>
         hd (getRecords (addRecord written st record)) = record \<and>
         record # getRecords st =
           getRecords (addRecord written st record) @ drop 99 (getRecords st)"
  using assms by (simp add: addRecord_written)

theorem addRecord_prepend_cap_witness:
  "getRecords (addRecord True None (example_record ''new'')) = [example_record ''new''] \<and>
   length (getRecords (Some (replicate 100 (example_record ''old'')))) = 100 \<and>
   getRecords (addRecord True (Some (replicate 100 (example_record ''old''))) (example_record ''new'')) =
     example_record ''new'' # replicate 99 (example_record ''old'')"
proof -
  have t: True by simp
  note cap = addRecord_prepend_cap [OF t, THEN conjunct2, THEN conjunct1]
  from cap [of None "example_record ''new''"]
    cap [of "Some (replicate 100 (example_record ''old''))" "example_record ''new''"]
  show ?thesis by (simp add: getRecords_def)
qed

text \<open>
  C10. In every state the controller can reach, \<^verbatim>\<open>stop()\<close> empties the host's queue of
  scheduled animation frames, clears \<^verbatim>\<open>animationId\<close> and sets \<^verbatim>\<open>isSpinning\<close> to false,
  and changes nothing else: \<^verbatim>\<open>currentRotation\<close> and the element stay as they are. When
  the controller is not spinning, \<^verbatim>\<open>stop()\<close> returns the state it was given. Of the
  controller's operations, the call of \<^verbatim>\<open>spin\<close> and \<^verbatim>\<open>stop()\<close> leave
  \<^verbatim>\<open>currentRotation\<close> as it is, and \<^verbatim>\<open>reset()\<close> is the one that puts it back to 0.
\<close>

theorem stop_keeps_rotation:
  assumes "reachable w"
  shows "stop w = w\<lparr>isSpinning := False, animationId := None, frames := []\<rparr> \<and>
         \<not> isSpinning (stop w) \<and> animationId (stop w) = None \<and> frames (stop w) = [] \<and>
         currentRotation (stop w) = currentRotation w \<and>
         element (stop w) = element w \<and>
         (\<not> isSpinning w \<longrightarrow> stop w = w) \<and>
         currentRotation (reset w) = 0 \<and>
         currentRotation (snd (spin w targetAngle dur ease now)) = currentRotation w"
proof -
  from assms have inv: "controller_inv w" by (rule reachable_inv)
  have form: "stop w = w\<lparr>isSpinning := False, animationId := None, frames := []\<rparr>"
    by (rule stop_reachable_form [OF inv])
  have idle: "\<not> isSpinning w \<longrightarrow> stop w = w"
  proof
    assume "\<not> isSpinning w"
    with inv have "animationId w = None" "frames w = []"
      by (auto simp: controller_inv_def split: option.splits)
    with \<open>\<not> isSpinning w\<close> show "stop w = w" unfolding form by simp
  qed
  have zero: "currentRotation (reset w) = 0"
    by (cases "element (stop w)") (simp_all add: reset_def Let_def)
  have call: "currentRotation (snd (spin w targetAngle dur ease now)) = currentRotation w"
    by (simp add: spin_def requestAnimationFrame_def Let_def)
  from form idle zero call show ?thesis by simp
qed

theorem stop_keeps_rotation_witness:
  "reachable halfway_example \<and> isSpinning halfway_example \<and>
   currentRotation halfway_example = 1890 \<and> length (frames halfway_example) = 1 \<and>
   \<not> isSpinning (stop halfway_example) \<and> frames (stop halfway_example) = [] \<and>
   currentRotation (stop halfway_example) = 1890 \<and>
   stop (stop halfway_example) = stop halfway_example \<and>
   currentRotation (reset halfway_example) = 0"
proof -
  have r: "reachable (stop halfway_example)"
    by (rule reachable_stop [OF reachable_halfway_example])
  show ?thesis
    using reachable_halfway_example stop_keeps_rotation [OF reachable_halfway_example]
      stop_keeps_rotation [OF r]
    by (simp add: halfway_example_eq)
qed

end
